theory Spec2Isabelle
  imports Complex_Main "HOL-Library.AList" "HOL-Library.Word"
begin

section \<open>Objects, adjustment values and filter presets\<close>

text \<open>
  A JavaScript object with string keys is an association list: the keys in insertion
  order, each key once. An object spread \<^verbatim>\<open>{ ...a, ...b }\<close> copies the properties of
  \<open>a\<close> in order and then assigns those of \<open>b\<close> one after the other: a key that is
  already there keeps its place and takes the new value, a new key goes to the end.
  Slider and preset values are whole numbers.
\<close>

type_synonym obj = "(string \<times> int) list"

definition spread :: "obj \<Rightarrow> obj \<Rightarrow> obj" where
  "spread a b = fold (\<lambda>(k, v). AList.update k v) b a"

text \<open>Reading a property: \<open>None\<close> is JavaScript's \<open>undefined\<close>.\<close>

definition get_prop :: "obj \<Rightarrow> string \<Rightarrow> int option" where
  "get_prop a k = map_of a k"

text \<open>\<^verbatim>\<open>type FilterValues\<close> and \<^verbatim>\<open>DEFAULT_FILTERS\<close> of ImageEditor.tsx.\<close>

type_synonym FilterValues = obj

definition DEFAULT_FILTERS :: FilterValues where
  "DEFAULT_FILTERS =
     [(''brightness'', 100), (''contrast'', 100), (''saturation'', 100), (''sepia'', 0),
      (''grayscale'', 0), (''blur'', 0), (''hueRotate'', 0)]"

text \<open>
  \<^verbatim>\<open>interface Filter\<close> and \<^verbatim>\<open>INSTAGRAM_FILTERS\<close> of lib/filters.ts. The field
  \<^verbatim>\<open>filter\<close> is \<open>filter_f\<close> here, \<^verbatim>\<open>class\<close> is \<open>class_f\<close>. The presets name the
  saturation \<^verbatim>\<open>saturate\<close>, as the source does.
\<close>

record Filter =
  name :: string
  class_f :: string
  filter_f :: obj

definition INSTAGRAM_FILTERS :: "Filter list" where
  "INSTAGRAM_FILTERS =
    [\<lparr>name = ''Normal'', class_f = '''', filter_f = []\<rparr>,
     \<lparr>name = ''Clarendon'', class_f = ''filter-clarendon'',
      filter_f = [(''contrast'', 120), (''saturate'', 125), (''brightness'', 110)]\<rparr>,
     \<lparr>name = ''Gingham'', class_f = ''filter-gingham'',
      filter_f = [(''brightness'', 105), (''hueRotate'', - 10), (''sepia'', 0)]\<rparr>,
     \<lparr>name = ''Moon'', class_f = ''filter-moon'',
      filter_f = [(''grayscale'', 100), (''contrast'', 110), (''brightness'', 110)]\<rparr>,
     \<lparr>name = ''Lark'', class_f = ''filter-lark'',
      filter_f = [(''contrast'', 90), (''brightness'', 115), (''saturate'', 110)]\<rparr>,
     \<lparr>name = ''Reyes'', class_f = ''filter-reyes'',
      filter_f = [(''sepia'', 22), (''brightness'', 110), (''contrast'', 85)]\<rparr>,
     \<lparr>name = ''Juno'', class_f = ''filter-juno'',
      filter_f = [(''contrast'', 120), (''brightness'', 110), (''saturate'', 140),
                  (''sepia'', 20)]\<rparr>,
     \<lparr>name = ''Slumber'', class_f = ''filter-slumber'',
      filter_f = [(''brightness'', 105), (''saturate'', 66), (''sepia'', 40)]\<rparr>,
     \<lparr>name = ''Crema'', class_f = ''filter-crema'',
      filter_f = [(''contrast'', 90), (''saturate'', 90), (''sepia'', 20)]\<rparr>,
     \<lparr>name = ''Ludwig'', class_f = ''filter-ludwig'',
      filter_f = [(''brightness'', 105), (''saturate'', 100), (''contrast'', 105)]\<rparr>,
     \<lparr>name = ''Aden'', class_f = ''filter-aden'',
      filter_f = [(''hueRotate'', - 20), (''contrast'', 90), (''brightness'', 120),
                  (''saturate'', 85)]\<rparr>,
     \<lparr>name = ''Perpetua'', class_f = ''filter-perpetua'',
      filter_f = [(''contrast'', 110), (''brightness'', 110), (''saturate'', 110)]\<rparr>]"

definition Clarendon :: Filter where
  "Clarendon = INSTAGRAM_FILTERS ! 1"


section \<open>Rasters\<close>

text \<open>
  A canvas bitmap and an \<^verbatim>\<open>ImageData\<close> are both a width, a height and the flat
  RGBA byte buffer in row-major order (four bytes per pixel), as
  \<^verbatim>\<open>imageData.data\<close> is indexed in lib/image-processing.ts.
\<close>

type_synonym byte = "8 word"

record raster =
  width :: nat
  height :: nat
  data :: "byte list"

text \<open>
  An image URL (the \<^verbatim>\<open>string\<close> held in \<^verbatim>\<open>imageSrc\<close> and in the history) is
  modelled by the raster it decodes to. \<^verbatim>\<open>canvas.toDataURL()\<close> encodes the bitmap as
  PNG, which is lossless, and \<^verbatim>\<open>createImage\<close> decodes it again. A URL is a string, an
  immutable value: it holds no reference to the canvas it was made from.
\<close>

datatype url = Url raster

definition toDataURL :: "raster \<Rightarrow> url" where
  "toDataURL c = Url c"

fun createImage :: "url \<Rightarrow> raster" where
  "createImage (Url r) = r"


section \<open>The canvas operations that the pixel operators call\<close>

text \<open>
  The operators of lib/image-processing.ts work through the browser's canvas. The
  operations they call are modelled here after the HTML standard: what
  \<^verbatim>\<open>getImageData\<close> returns and when it throws, the conversion of a number on
  storing it in a \<^verbatim>\<open>Uint8ClampedArray\<close>, and the drawing of one bitmap on another
  through a circular clip. JavaScript numbers are exact rationals here.
\<close>

datatype js_error = TypeError | IndexSizeError

text \<open>
  The arguments of \<^verbatim>\<open>getImageData\<close> are declared \<^verbatim>\<open>[EnforceRange] long\<close>: a
  number passed there loses its fraction, and one that then lies outside the signed
  32-bit range makes the call throw a TypeError. A number assigned to
  \<^verbatim>\<open>canvas.width\<close> or \<^verbatim>\<open>canvas.height\<close> is reduced to 32 bits, unsigned, and
  a value above \<open>2\<^sup>3\<^sup>1 - 1\<close> is replaced by the attribute's default (300 and 150).
\<close>

definition toInteger :: "rat \<Rightarrow> int" where
  "toInteger q = (if 0 \<le> q then \<lfloor>q\<rfloor> else \<lceil>q\<rceil>)"

definition toLong :: "rat \<Rightarrow> js_error + int" where
  "toLong q =
     (if - (2 ^ 31) \<le> toInteger q \<and> toInteger q < 2 ^ 31 then Inr (toInteger q)
      else Inl TypeError)"

definition canvasDim :: "nat \<Rightarrow> rat \<Rightarrow> nat" where
  "canvasDim dflt q = (let m = toInteger q mod 2 ^ 32 in if m < 2 ^ 31 then nat m else dflt)"





text \<open>
  The four bytes of the pixel at column \<open>x\<close>, row \<open>y\<close>; a position outside the
  bitmap reads as transparent black.
\<close>

definition byteAt :: "byte list \<Rightarrow> nat \<Rightarrow> byte" where
  "byteAt d k = (if k < length d then d ! k else 0)"

definition pixelAt :: "raster \<Rightarrow> int \<Rightarrow> int \<Rightarrow> byte list" where
  "pixelAt c x y =
     (if 0 \<le> x \<and> x < int (width c) \<and> 0 \<le> y \<and> y < int (height c)
      then (let k = 4 * (nat y * width c + nat x)
            in [byteAt (data c) k, byteAt (data c) (k + 1),
                byteAt (data c) (k + 2), byteAt (data c) (k + 3)])
      else [0, 0, 0, 0])"

text \<open>A bitmap given by a function from positions to pixels, row by row.\<close>

definition mkRaster :: "nat \<Rightarrow> nat \<Rightarrow> (int \<Rightarrow> int \<Rightarrow> byte list) \<Rightarrow> raster" where
  "mkRaster w h f =
     \<lparr>width = w, height = h,
      data = concat (map (\<lambda>i. concat (map (\<lambda>j. f (int j) (int i)) [0..<w])) [0..<h])\<rparr>"

text \<open>
  \<^verbatim>\<open>ctx.getImageData(sx, sy, sw, sh)\<close>: the four arguments are converted in turn
  (a TypeError for one out of range); then an IndexSizeError when a side is zero;
  otherwise the pixels of the rectangle with corners \<open>(sx, sy)\<close> and
  \<open>(sx + sw, sy + sh)\<close>, the part outside the canvas transparent black. A rectangle
  that leaves the canvas is not an error.
\<close>

definition imageRect :: "raster \<Rightarrow> int \<Rightarrow> int \<Rightarrow> int \<Rightarrow> int \<Rightarrow> raster" where
  "imageRect c sx sy sw sh =
     (let x0 = min sx (sx + sw); y0 = min sy (sy + sh)
      in mkRaster (nat \<bar>sw\<bar>) (nat \<bar>sh\<bar>) (\<lambda>j i. pixelAt c (x0 + j) (y0 + i)))"

definition getImageData :: "raster \<Rightarrow> rat \<Rightarrow> rat \<Rightarrow> rat \<Rightarrow> rat \<Rightarrow> js_error + raster" where
  "getImageData c sx sy sw sh =
     (case toLong sx of Inl e \<Rightarrow> Inl e | Inr x \<Rightarrow>
      (case toLong sy of Inl e \<Rightarrow> Inl e | Inr y \<Rightarrow>
       (case toLong sw of Inl e \<Rightarrow> Inl e | Inr w \<Rightarrow>
        (case toLong sh of Inl e \<Rightarrow> Inl e | Inr h \<Rightarrow>
           if w = 0 \<or> h = 0 then Inl IndexSizeError
           else Inr (imageRect c x y w h)))))"











section \<open>The pixel operators (lib/image-processing.ts)\<close>











section \<open>Cropping (lib/image-processing.ts)\<close>

text \<open>
  \<^verbatim>\<open>getCroppedImg(imageSrc, pixelCrop, rotation, flip)\<close>. Its first half sizes a
  canvas to the bounding box of the rotated image and draws the image on it, rotated
  and flipped: this working canvas is computed in floating point and drawn by the
  browser, and the model takes it from the parameter \<open>draw\<close>. \<open>ctx\<close> says whether
  \<^verbatim>\<open>canvas.getContext("2d")\<close> gave a context. The result \<open>None\<close> is \<^verbatim>\<open>null\<close>.
  Setting \<^verbatim>\<open>canvas.width\<close> and \<^verbatim>\<open>canvas.height\<close> clears the canvas to transparent
  black, and \<^verbatim>\<open>putImageData(data, 0, 0)\<close> copies the pixels that fall on it.
\<close>

record PixelCrop =
  crop_x :: rat
  crop_y :: rat
  crop_width :: rat
  crop_height :: rat

definition putImageData00 :: "nat \<Rightarrow> nat \<Rightarrow> raster \<Rightarrow> raster" where
  "putImageData00 w h d =
     mkRaster w h (\<lambda>x y. if x < int (width d) \<and> y < int (height d) then pixelAt d x y
                          else [0, 0, 0, 0])"

definition getCroppedImg ::
  "(raster \<Rightarrow> int \<Rightarrow> bool \<Rightarrow> bool \<Rightarrow> raster) \<Rightarrow> bool \<Rightarrow> url \<Rightarrow> PixelCrop option
     \<Rightarrow> int \<Rightarrow> bool \<Rightarrow> bool \<Rightarrow> js_error + url option" where
  "getCroppedImg draw ctx imageSrc pixelCrop rotation flipH flipV =
     (let img = createImage imageSrc
      in if \<not> ctx then Inr None
         else (let canvas = draw img rotation flipH flipV
               in case pixelCrop of
                    None \<Rightarrow> Inr (Some (toDataURL canvas))
                  | Some pc \<Rightarrow>
                      (case getImageData canvas (crop_x pc) (crop_y pc)
                              (crop_width pc) (crop_height pc) of
                         Inl e \<Rightarrow> Inl e
                       | Inr d \<Rightarrow>
                           Inr (Some (toDataURL
                             (putImageData00 (canvasDim 300 (crop_width pc))
                                (canvasDim 150 (crop_height pc)) d))))))"

text \<open>
  With rotation 0 and no flip the four transformations cancel and
  \<^verbatim>\<open>drawImage(image, 0, 0)\<close> copies the image onto a canvas of its own size.
\<close>

definition drawUpright :: "raster \<Rightarrow> int \<Rightarrow> bool \<Rightarrow> bool \<Rightarrow> raster" where
  "drawUpright img rotation flipH flipV = img"


section \<open>The editor session (components/editor/ImageEditor.tsx)\<close>

datatype Mode = Crop | Adjust | FilterMode | Draw | Repair | RemoveBg | Compress

datatype RepairType = Blemish | Redeye

text \<open>\<^verbatim>\<open>type HistoryState = { src: string; filters: FilterValues }\<close>\<close>

record HistoryState =
  src :: url
  hfilters :: FilterValues

text \<open>
  The component's state: one field per \<^verbatim>\<open>useState\<close> or \<^verbatim>\<open>useRef\<close> that the
  handlers below read or write. \<open>canvas\<close> is the bitmap of \<^verbatim>\<open>canvasRef.current\<close>,
  the one buffer that is drawn on in place; it is \<open>None\<close> while no canvas is mounted
  (in crop mode the component renders the crop widget in its place). The initial state
  is the state after the first run of the effect that draws \<^verbatim>\<open>imageSrc\<close> on the
  canvas.
\<close>

record EditorState =
  imageSrc :: url
  mode :: "Mode option"
  filters :: FilterValues
  lastAppliedFilters :: FilterValues
  history :: "HistoryState list"
  historyIndex :: nat
  drawColor :: string
  drawSize :: int
  isDrawing :: bool
  repairType :: RepairType
  completedCrop :: "PixelCrop option"
  rotation :: int
  flipHorizontal :: bool
  flipVertical :: bool
  canvas :: "raster option"
  lastPos :: "(rat \<times> rat) option"

definition initialState :: "url \<Rightarrow> EditorState" where
  "initialState initialImage =
     \<lparr>imageSrc = initialImage, mode = None,
      filters = DEFAULT_FILTERS, lastAppliedFilters = DEFAULT_FILTERS,
      history = [\<lparr>src = initialImage, hfilters = DEFAULT_FILTERS\<rparr>], historyIndex = 0,
      drawColor = ''#ffffff'', drawSize = 5, isDrawing = False, repairType = Blemish,
      completedCrop = None, rotation = 0, flipHorizontal = False, flipVertical = False,
      canvas = Some (createImage initialImage), lastPos = None\<rparr>"

text \<open>
  \<^verbatim>\<open>addToHistory\<close>: \<^verbatim>\<open>history.slice(0, historyIndex + 1)\<close>, \<^verbatim>\<open>push\<close>, then the four
  setters.
\<close>

definition addToHistory :: "url \<Rightarrow> FilterValues \<Rightarrow> EditorState \<Rightarrow> EditorState" where
  "addToHistory newSrc newFilters s =
     (let newHistory = take (historyIndex s + 1) (history s)
                         @ [\<lparr>src = newSrc, hfilters = newFilters\<rparr>]
      in s\<lparr>history := newHistory, historyIndex := length newHistory - 1,
            imageSrc := newSrc, filters := newFilters\<rparr>)"

text \<open>
  \<^verbatim>\<open>handleUndo\<close> and \<^verbatim>\<open>handleRedo\<close>. \<^verbatim>\<open>history[i]\<close> past the end is
  \<^verbatim>\<open>undefined\<close>, and reading \<^verbatim>\<open>state.src\<close> from it throws a TypeError.
\<close>

definition handleUndo :: "EditorState \<Rightarrow> js_error + EditorState" where
  "handleUndo s =
     (if historyIndex s > 0 then
        (if historyIndex s - 1 < length (history s) then
           (let state = history s ! (historyIndex s - 1)
            in Inr (s\<lparr>historyIndex := historyIndex s - 1, imageSrc := src state,
                      filters := hfilters state, lastAppliedFilters := hfilters state\<rparr>))
         else Inl TypeError)
      else Inr s)"

definition handleRedo :: "EditorState \<Rightarrow> js_error + EditorState" where
  "handleRedo s =
     (if int (historyIndex s) < int (length (history s)) - 1 then
        (if historyIndex s + 1 < length (history s) then
           (let state = history s ! (historyIndex s + 1)
            in Inr (s\<lparr>historyIndex := historyIndex s + 1, imageSrc := src state,
                      filters := hfilters state, lastAppliedFilters := hfilters state\<rparr>))
         else Inl TypeError)
      else Inr s)"

text \<open>\<^verbatim>\<open>applyFilters\<close>, the handler of the Apply button.\<close>

definition applyFilters :: "EditorState \<Rightarrow> EditorState" where
  "applyFilters s =
     addToHistory (imageSrc s) (filters s) (s\<lparr>lastAppliedFilters := filters s\<rparr>)"

text \<open>
  \<^verbatim>\<open>applyPreset\<close> (declared in the component, called nowhere) and the click handler
  of a preset tile in filter mode,
  \<^verbatim>\<open>setFilters({ ...lastAppliedFilters, ...f.filter })\<close>.
\<close>

definition applyPreset :: "Filter \<Rightarrow> EditorState \<Rightarrow> EditorState" where
  "applyPreset f s = s\<lparr>filters := spread (filters s) (filter_f f)\<rparr>"

definition presetClick :: "Filter \<Rightarrow> EditorState \<Rightarrow> EditorState" where
  "presetClick f s = s\<lparr>filters := spread (lastAppliedFilters s) (filter_f f)\<rparr>"

text \<open>A slider of the Adjust panel: \<^verbatim>\<open>setFilters({...filters, brightness: v})\<close>.\<close>

definition sliderChange :: "string \<Rightarrow> int \<Rightarrow> EditorState \<Rightarrow> EditorState" where
  "sliderChange k v s = s\<lparr>filters := spread (filters s) [(k, v)]\<rparr>"

text \<open>\<^verbatim>\<open>hasChanges\<close> compares the two \<^verbatim>\<open>JSON.stringify\<close> texts: the same keys in the
  same order with the same values.\<close>

definition hasChanges :: "EditorState \<Rightarrow> bool" where
  "hasChanges s \<longleftrightarrow> filters s \<noteq> lastAppliedFilters s"

text \<open>A tool button: \<^verbatim>\<open>onClick={() => setMode('crop')}\<close> and its siblings.\<close>

definition setMode :: "Mode option \<Rightarrow> EditorState \<Rightarrow> EditorState" where
  "setMode m s = s\<lparr>mode := m\<rparr>"

text \<open>\<^verbatim>\<open>getFilterString\<close> reads these seven properties, in this order.\<close>

definition getFilterString :: "FilterValues \<Rightarrow> (string \<times> int option) list" where
  "getFilterString currentFilters =
     [(''brightness'', get_prop currentFilters ''brightness''),
      (''contrast'', get_prop currentFilters ''contrast''),
      (''saturate'', get_prop currentFilters ''saturation''),
      (''sepia'', get_prop currentFilters ''sepia''),
      (''grayscale'', get_prop currentFilters ''grayscale''),
      (''blur'', get_prop currentFilters ''blur''),
      (''hue-rotate'', get_prop currentFilters ''hueRotate'')]"

text \<open>
  The effect with the dependencies \<^verbatim>\<open>[imageSrc, mode]\<close>, run after a render: outside
  crop mode it draws \<^verbatim>\<open>imageSrc\<close> on the canvas, resized to the image, whenever
  \<^verbatim>\<open>imageSrc\<close> or \<^verbatim>\<open>mode\<close> has changed. \<open>old\<close> is the state of the render before.
\<close>

definition afterRender :: "EditorState \<Rightarrow> EditorState \<Rightarrow> EditorState" where
  "afterRender old new =
     (if mode new = Some Crop then new\<lparr>canvas := None\<rparr>
      else if imageSrc new \<noteq> imageSrc old \<or> mode new \<noteq> mode old
        then new\<lparr>canvas := Some (createImage (imageSrc new))\<rparr>
      else new)"





text \<open>
  \<^verbatim>\<open>performCrop\<close>, the handler of Apply Crop. \<open>scaleX\<close> and \<open>scaleY\<close> are the
  ratios of the image's natural size to its displayed size; the \<^verbatim>\<open>img\<close> element
  exists in crop mode only. An exception of \<^verbatim>\<open>getCroppedImg\<close> is caught and logged.
\<close>

definition finalCrop :: "rat \<Rightarrow> rat \<Rightarrow> EditorState \<Rightarrow> PixelCrop option" where
  "finalCrop scaleX scaleY s =
     (case completedCrop s of
        Some cc \<Rightarrow> Some \<lparr>crop_x = crop_x cc * scaleX, crop_y = crop_y cc * scaleY,
                         crop_width = crop_width cc * scaleX,
                         crop_height = crop_height cc * scaleY\<rparr>
      | None \<Rightarrow> None)"

definition performCrop ::
  "(raster \<Rightarrow> int \<Rightarrow> bool \<Rightarrow> bool \<Rightarrow> raster) \<Rightarrow> bool \<Rightarrow> rat \<Rightarrow> rat
     \<Rightarrow> EditorState \<Rightarrow> EditorState" where
  "performCrop draw ctx scaleX scaleY s =
     (if mode s \<noteq> Some Crop then s
      else (case getCroppedImg draw ctx (imageSrc s) (finalCrop scaleX scaleY s) (rotation s)
                   (flipHorizontal s) (flipVertical s) of
              Inr (Some cropped) \<Rightarrow>
                (addToHistory cropped (filters s) s)
                  \<lparr>rotation := 0, flipHorizontal := False, flipVertical := False,
                   completedCrop := None, mode := None\<rparr>
            | _ \<Rightarrow> s))"




section \<open>Sessions\<close>

text \<open>The history's invariant: the current index points at an entry.\<close>

definition history_ok :: "EditorState \<Rightarrow> bool" where
  "history_ok s \<longleftrightarrow> historyIndex s < length (history s)"


text \<open>
  What holds between two events of a session: the index points at an entry, whose
  raster is the current image; the canvas is mounted outside crop mode only and, when
  no stroke or repair is under way, shows the current image; the brush size is within
  the slider's range.
\<close>

definition session_ok :: "EditorState \<Rightarrow> bool" where
  "session_ok s \<longleftrightarrow>
     history_ok s
     \<and> imageSrc s = src (history s ! historyIndex s)
     \<and> (canvas s = None \<longleftrightarrow> mode s = Some Crop)
     \<and> (\<not> isDrawing s \<and> mode s \<noteq> Some Crop \<longrightarrow> canvas s = Some (createImage (imageSrc s)))
     \<and> 1 \<le> drawSize s \<and> drawSize s \<le> 50"





section \<open>Example values\<close>

text \<open>Three small opaque bitmaps and two adjustment objects for the concrete runs.\<close>

definition imgA :: raster where
  "imgA = \<lparr>width = 2, height = 1, data = [200, 10, 10, 255, 10, 200, 10, 255]\<rparr>"

definition imgB :: raster where
  "imgB = \<lparr>width = 1, height = 1, data = [0, 0, 255, 255]\<rparr>"

definition imgC :: raster where
  "imgC = \<lparr>width = 1, height = 2, data = [1, 2, 3, 255, 4, 5, 6, 255]\<rparr>"

definition bright120 :: FilterValues where
  "bright120 = spread DEFAULT_FILTERS [(''brightness'', 120)]"

definition sepia50 :: FilterValues where
  "sepia50 = spread DEFAULT_FILTERS [(''sepia'', 50)]"


text \<open>
  A session in the middle of its history, with an unapplied slider change: brightness
  to 120, a commit, sepia to 50, a commit, undo, contrast to 80.
\<close>

definition midHistory :: EditorState where
  "midHistory =
     (case handleUndo (addToHistory (Url imgC) sepia50
             (sliderChange ''sepia'' 50
               (addToHistory (Url imgB) bright120
                 (sliderChange ''brightness'' 120 (initialState (Url imgA)))))) of
        Inr s \<Rightarrow> sliderChange ''contrast'' 80 s
      | Inl err \<Rightarrow> initialState (Url imgA))"

text \<open>The brightness slider at 120, then the Crop button.\<close>

definition cropEntered :: EditorState where
  "cropEntered =
     afterRender (sliderChange ''brightness'' 120 (initialState (Url imgA)))
       (setMode (Some Crop) (sliderChange ''brightness'' 120 (initialState (Url imgA))))"

text \<open>The six adjustments that the presets and the live values name alike.\<close>

definition adjustmentKeys :: "string list" where
  "adjustmentKeys =
     [''brightness'', ''contrast'', ''sepia'', ''grayscale'', ''blur'', ''hueRotate'']"





text \<open>A 4 by 4 canvas, every pixel an opaque red.\<close>

definition redCanvas :: raster where
  "redCanvas = mkRaster 4 4 (\<lambda>x y. [200, 10, 10, 255])"





text \<open>
  Crop rectangles for the 2 by 1 bitmap \<open>imgA\<close>: one that overlaps it in a single
  pixel, one that lies beside it, one of width 0, one of the bitmap's size moved one
  pixel to the right, and one whose width is beyond the 32-bit range.
\<close>

definition cropPartlyOutside :: PixelCrop where
  "cropPartlyOutside = \<lparr>crop_x = 1, crop_y = 0, crop_width = 2, crop_height = 2\<rparr>"

definition cropOutside :: PixelCrop where
  "cropOutside = \<lparr>crop_x = 5, crop_y = 0, crop_width = 2, crop_height = 2\<rparr>"

definition cropEmpty :: PixelCrop where
  "cropEmpty = \<lparr>crop_x = 0, crop_y = 0, crop_width = 0, crop_height = 1\<rparr>"

definition cropShifted :: PixelCrop where
  "cropShifted = \<lparr>crop_x = 1, crop_y = 0, crop_width = 2, crop_height = 1\<rparr>"

definition cropHuge :: PixelCrop where
  "cropHuge = \<lparr>crop_x = 0, crop_y = 0, crop_width = 4294967297, crop_height = 1\<rparr>"








section \<open>The history\<close>

lemma history_ok_initialState: "history_ok (initialState u)"
  by (simp add: history_ok_def initialState_def)

lemma history_ok_addToHistory: "history_ok (addToHistory u f s)"
  by (simp add: history_ok_def addToHistory_def Let_def)

lemma addToHistory_history:
  "history (addToHistory u f s)
     = take (historyIndex s + 1) (history s) @ [\<lparr>src = u, hfilters = f\<rparr>]"
  by (simp add: addToHistory_def Let_def)

lemma addToHistory_index:
  "historyIndex (addToHistory u f s) = length (history (addToHistory u f s)) - 1"
  by (simp add: addToHistory_def Let_def)

lemma handleUndo_at_start: "historyIndex s = 0 \<Longrightarrow> handleUndo s = Inr s"
  by (simp add: handleUndo_def)

lemma handleUndo_step:
  "history_ok s \<Longrightarrow> 0 < historyIndex s \<Longrightarrow>
   handleUndo s =
     Inr (s\<lparr>historyIndex := historyIndex s - 1,
            imageSrc := src (history s ! (historyIndex s - 1)),
            filters := hfilters (history s ! (historyIndex s - 1)),
            lastAppliedFilters := hfilters (history s ! (historyIndex s - 1))\<rparr>)"
  by (simp add: handleUndo_def history_ok_def Let_def)

lemma handleRedo_at_end:
  "history_ok s \<Longrightarrow> historyIndex s = length (history s) - 1 \<Longrightarrow> handleRedo s = Inr s"
  by (simp add: handleRedo_def history_ok_def)

lemma handleRedo_step:
  "historyIndex s + 1 < length (history s) \<Longrightarrow>
   handleRedo s =
     Inr (s\<lparr>historyIndex := historyIndex s + 1,
            imageSrc := src (history s ! (historyIndex s + 1)),
            filters := hfilters (history s ! (historyIndex s + 1)),
            lastAppliedFilters := hfilters (history s ! (historyIndex s + 1))\<rparr>)"
  by (auto simp add: handleRedo_def Let_def)

section \<open>Object spread\<close>

lemma map_of_rev_distinct: "distinct (map fst b) \<Longrightarrow> map_of (rev b) = map_of b"
proof (induction b)
  case Nil
  show ?case by simp
next
  case (Cons p b)
  obtain k v where p: "p = (k, v)" by (cases p)
  from Cons.prems have notin: "k \<notin> fst ` set b" and d: "distinct (map fst b)"
    by (simp_all add: p)
  from notin have none: "map_of b k = None" by (simp add: map_of_eq_None_iff)
  have "map_of (rev (p # b)) = map_of [p] ++ map_of (rev b)"
    by (simp add: map_of_append)
  also have "\<dots> = map_of [p] ++ map_of b" using Cons.IH [OF d] by simp
  also have "\<dots> = map_of (p # b)"
    using none by (auto simp add: p fun_eq_iff map_add_def split: option.splits)
  finally show ?case .
qed

lemma map_of_spread: "map_of (spread a b) = map_of a ++ map_of (rev b)"
  unfolding spread_def
proof (induction b arbitrary: a)
  case Nil
  show ?case by simp
next
  case (Cons p b)
  obtain k v where p: "p = (k, v)" by (cases p)
  have "map_of (fold (\<lambda>(k, v). AList.update k v) b (AList.update k v a))
          = map_of (AList.update k v a) ++ map_of (rev b)"
    by (rule Cons.IH)
  also have "\<dots> = map_of a ++ map_of (rev (p # b))"
    by (simp add: p AList.update_conv' map_add_upd_left fun_eq_iff map_add_def split: option.splits)
  finally show ?case by (simp add: p)
qed

lemma get_prop_spread:
  assumes "distinct (map fst b)"
  shows "get_prop (spread a b) k = (case get_prop b k of Some v \<Rightarrow> Some v | None \<Rightarrow> get_prop a k)"
proof -
  have "map_of (rev b) = map_of b" using assms by (rule map_of_rev_distinct)
  then show ?thesis
    by (simp add: get_prop_def map_of_spread map_add_def split: option.splits)
qed

lemma presets_distinct: "f \<in> set INSTAGRAM_FILTERS \<Longrightarrow> distinct (map fst (filter_f f))"
  by (auto simp add: INSTAGRAM_FILTERS_def)


section \<open>The red-eye loop\<close>











section \<open>Bitmaps\<close>

lemma concat_nth_uniform:
  "\<forall>xs \<in> set xss. length xs = n \<Longrightarrow> i < length xss \<Longrightarrow> k < n
     \<Longrightarrow> concat xss ! (i * n + k) = xss ! i ! k"
proof (induction xss arbitrary: i)
  case Nil
  then show ?case by simp
next
  case (Cons xs xss)
  show ?case
  proof (cases i)
    case 0
    with Cons.prems show ?thesis by (simp add: nth_append)
  next
    case (Suc m)
    with Cons.prems have "concat xss ! (m * n + k) = xss ! m ! k"
      by (intro Cons.IH) simp_all
    with Suc Cons.prems show ?thesis by (simp add: nth_append)
  qed
qed

lemma length_concat_uniform:
  "\<forall>xs \<in> set xss. length xs = n \<Longrightarrow> length (concat xss) = length xss * n"
  by (induction xss) simp_all

lemma mkRaster_dims: "width (mkRaster w h f) = w \<and> height (mkRaster w h f) = h"
  by (simp add: mkRaster_def)

lemma mkRaster_byte:
  assumes four: "\<And>x y. length (f x y) = 4"
    and x: "x < w" and y: "y < h" and c: "c < 4"
  shows "4 * (y * w + x) + c < length (data (mkRaster w h f))
       \<and> data (mkRaster w h f) ! (4 * (y * w + x) + c) = f (int x) (int y) ! c"
proof -
  let ?row = "\<lambda>i. concat (map (\<lambda>j. f (int j) (int i)) [0..<w])"
  let ?rows = "map ?row [0..<h]"
  have rowlen: "\<And>i. length (?row i) = w * 4"
    by (subst length_concat_uniform [where n = 4]) (simp_all add: four)
  have rows: "\<forall>xs \<in> set ?rows. length xs = w * 4" using rowlen by auto
  have len: "length (concat ?rows) = h * (w * 4)"
    using length_concat_uniform [OF rows] by simp
  have idx: "4 * (y * w + x) + c = y * (w * 4) + (x * 4 + c)" by (simp add: algebra_simps)
  have inrow: "x * 4 + c < w * 4" using x c by simp
  have "y * (w * 4) + (x * 4 + c) < y * (w * 4) + w * 4" using inrow by simp
  also have "\<dots> = (y + 1) * (w * 4)" by simp
  also have "\<dots> \<le> h * (w * 4)" using y by (intro mult_le_mono1) simp
  finally have bound: "4 * (y * w + x) + c < length (concat ?rows)"
    using len idx by simp
  have "concat ?rows ! (y * (w * 4) + (x * 4 + c)) = ?rows ! y ! (x * 4 + c)"
    using rows y inrow by (intro concat_nth_uniform) simp_all
  also have "\<dots> = ?row y ! (x * 4 + c)" using y by simp
  also have "\<dots> = map (\<lambda>j. f (int j) (int y)) [0..<w] ! x ! c"
    using x c by (intro concat_nth_uniform) (simp_all add: four)
  also have "\<dots> = f (int x) (int y) ! c" using x by simp
  finally have val: "concat ?rows ! (4 * (y * w + x) + c) = f (int x) (int y) ! c"
    unfolding idx .
  show ?thesis using bound val by (simp only: mkRaster_def raster.simps)
qed

lemma list4: "length xs = 4 \<Longrightarrow> [xs ! 0, xs ! 1, xs ! 2, xs ! 3] = xs"
  by (auto simp add: list_eq_iff_nth_eq less_Suc_eq numeral_eq_Suc)

lemma pixelAt_mkRaster:
  assumes four: "\<And>x y. length (f x y) = 4"
    and x: "0 \<le> x" "x < int w" and y: "0 \<le> y" "y < int h"
  shows "pixelAt (mkRaster w h f) x y = f x y"
proof -
  have xn: "nat x < w" and yn: "nat y < h" using x y by simp_all
  have b: "\<And>c. c < 4 \<Longrightarrow>
       byteAt (data (mkRaster w h f)) (4 * (nat y * w + nat x) + c) = f x y ! c"
    using mkRaster_byte [OF four xn yn] x y by (simp add: byteAt_def)
  have "pixelAt (mkRaster w h f) x y = [f x y ! 0, f x y ! 1, f x y ! 2, f x y ! 3]"
    using x y b [of 0] b [of 1] b [of 2] b [of 3]
    by (simp add: pixelAt_def mkRaster_dims Let_def)
  then show ?thesis using list4 [OF four] by simp
qed

lemma pixelAt_length: "length (pixelAt c x y) = 4"
  by (simp add: pixelAt_def Let_def)

lemma pixelAt_outside:
  "x < 0 \<or> int (width c) \<le> x \<or> y < 0 \<or> int (height c) \<le> y \<Longrightarrow> pixelAt c x y = [0, 0, 0, 0]"
  by (auto simp add: pixelAt_def)


section \<open>The canvas operations\<close>




lemma toLong_error: "toLong q = Inl e \<Longrightarrow> e = TypeError"
  by (auto simp add: toLong_def split: if_splits)


lemma getImageData_ok:
  "toLong sx = Inr x \<Longrightarrow> toLong sy = Inr y \<Longrightarrow> toLong sw = Inr w \<Longrightarrow> toLong sh = Inr h
     \<Longrightarrow> w \<noteq> 0 \<Longrightarrow> h \<noteq> 0
     \<Longrightarrow> getImageData c sx sy sw sh = Inr (imageRect c x y w h)"
  by (simp add: getImageData_def)

lemma getImageData_zero:
  "toLong sx = Inr x \<Longrightarrow> toLong sy = Inr y \<Longrightarrow> toLong sw = Inr w \<Longrightarrow> toLong sh = Inr h
     \<Longrightarrow> w = 0 \<or> h = 0
     \<Longrightarrow> getImageData c sx sy sw sh = Inl IndexSizeError"
  by (simp add: getImageData_def)

lemma getImageData_range:
  "toLong sx = Inl e1 \<or> toLong sy = Inl e2 \<or> toLong sw = Inl e3 \<or> toLong sh = Inl e4
     \<Longrightarrow> getImageData c sx sy sw sh = Inl TypeError"
  by (auto simp add: getImageData_def split: sum.splits dest: toLong_error)

lemma imageRect_dims:
  "width (imageRect c x y w h) = nat \<bar>w\<bar> \<and> height (imageRect c x y w h) = nat \<bar>h\<bar>"
  by (simp add: imageRect_def Let_def mkRaster_dims)

lemma imageRect_pos:
  "0 < w \<Longrightarrow> 0 < h
     \<Longrightarrow> imageRect c x y w h = mkRaster (nat w) (nat h) (\<lambda>j i. pixelAt c (x + j) (y + i))"
  by (simp add: imageRect_def Let_def min_def)

lemma pixelAt_imageRect:
  assumes "0 < w" and "0 < h" and "0 \<le> j" and "j < w" and "0 \<le> i" and "i < h"
  shows "pixelAt (imageRect c x y w h) j i = pixelAt c (x + j) (y + i)"
  unfolding imageRect_pos [OF assms(1,2)]
  by (subst pixelAt_mkRaster) (use assms in \<open>simp_all add: pixelAt_length\<close>)










section \<open>The pixels of the red-eye correction\<close>






section \<open>The region of the retouch operators\<close>

















text \<open>The example canvases.\<close>

lemma redCanvas_data:
  "redCanvas = \<lparr>width = 4, height = 4,
     data = [200, 10, 10, 255, 200, 10, 10, 255, 200, 10, 10, 255, 200, 10, 10, 255,
             200, 10, 10, 255, 200, 10, 10, 255, 200, 10, 10, 255, 200, 10, 10, 255,
             200, 10, 10, 255, 200, 10, 10, 255, 200, 10, 10, 255, 200, 10, 10, 255,
             200, 10, 10, 255, 200, 10, 10, 255, 200, 10, 10, 255, 200, 10, 10, 255]\<rparr>"
  by code_simp




section \<open>Cropping\<close>

lemma toLong_pos_canvasDim: "toLong q = Inr k \<Longrightarrow> 0 < k \<Longrightarrow> canvasDim dflt q = nat k"
  by (auto simp add: toLong_def canvasDim_def Let_def split: if_splits)

lemma putImageData00_dims:
  "width (putImageData00 w h d) = w \<and> height (putImageData00 w h d) = h"
  by (simp add: putImageData00_def mkRaster_dims)

lemma pixelAt_putImageData00:
  assumes "0 \<le> x" "x < int w" "0 \<le> y" "y < int h"
  shows "pixelAt (putImageData00 w h d) x y
           = (if x < int (width d) \<and> y < int (height d) then pixelAt d x y else [0, 0, 0, 0])"
  unfolding putImageData00_def
  by (subst pixelAt_mkRaster) (use assms in \<open>simp_all add: pixelAt_length\<close>)


section \<open>The states of a session\<close>

lemma session_ok_addToHistory:
  "session_ok s \<Longrightarrow> history_ok (addToHistory v f s)
     \<and> imageSrc (addToHistory v f s)
         = src (history (addToHistory v f s) ! historyIndex (addToHistory v f s))"
  by (simp add: session_ok_def history_ok_def addToHistory_def Let_def nth_append min_def)

lemma addToHistory_other:
  "mode (addToHistory v f s) = mode s \<and> canvas (addToHistory v f s) = canvas s
   \<and> isDrawing (addToHistory v f s) = isDrawing s \<and> drawSize (addToHistory v f s) = drawSize s
   \<and> imageSrc (addToHistory v f s) = v"
  by (simp add: addToHistory_def Let_def)



















section \<open>The claims\<close>

text \<open>
  Claim C1. In every history state (the index pointing at an entry), committing keeps
  the entries up to the current index, drops the ones after it, appends the new entry
  (the raster with the adjustments passed, which are the live ones at every call) and
  makes the new last position the current index; undo moves the index down by one
  when it is above 0 and redo moves it up by one when it is below the last position,
  each restoring that entry, and otherwise each leaves the state as it is. From the
  single initial entry, commit a, commit b, undo, commit c gives a history of length 3
  (the initial image, a, c) with the index 2, where redo changes nothing.
\<close>

theorem history_linear:
  assumes "history_ok s"
  shows "history (addToHistory newSrc newFilters s)
           = take (historyIndex s + 1) (history s) @ [\<lparr>src = newSrc, hfilters = newFilters\<rparr>]
       \<and> historyIndex (addToHistory newSrc newFilters s)
           = length (history (addToHistory newSrc newFilters s)) - 1
       \<and> historyIndex (addToHistory newSrc newFilters s) = historyIndex s + 1
       \<and> handleUndo s =
           Inr (if 0 < historyIndex s
                then s\<lparr>historyIndex := historyIndex s - 1,
                       imageSrc := src (history s ! (historyIndex s - 1)),
                       filters := hfilters (history s ! (historyIndex s - 1)),
                       lastAppliedFilters := hfilters (history s ! (historyIndex s - 1))\<rparr>
                else s)
       \<and> handleRedo s =
           Inr (if historyIndex s < length (history s) - 1
                then s\<lparr>historyIndex := historyIndex s + 1,
                       imageSrc := src (history s ! (historyIndex s + 1)),
                       filters := hfilters (history s ! (historyIndex s + 1)),
                       lastAppliedFilters := hfilters (history s ! (historyIndex s + 1))\<rparr>
                else s)
       \<and> (case handleUndo (addToHistory b fb (addToHistory a fa (initialState u))) of
             Inl err \<Rightarrow> False
           | Inr s3 \<Rightarrow>
               (let s4 = addToHistory c fc s3
                in length (history s4) = 3 \<and> historyIndex s4 = 2
                   \<and> map src (history s4) = [u, a, c]
                   \<and> handleRedo s4 = Inr s4))"
proof -
  have commit: "history (addToHistory newSrc newFilters s)
           = take (historyIndex s + 1) (history s) @ [\<lparr>src = newSrc, hfilters = newFilters\<rparr>]"
    by (rule addToHistory_history)
  have last: "historyIndex (addToHistory newSrc newFilters s)
           = length (history (addToHistory newSrc newFilters s)) - 1"
    by (rule addToHistory_index)
  have idx: "historyIndex (addToHistory newSrc newFilters s) = historyIndex s + 1"
    using assms by (simp add: addToHistory_def Let_def history_ok_def)
  have undo: "handleUndo s =
           Inr (if 0 < historyIndex s
                then s\<lparr>historyIndex := historyIndex s - 1,
                       imageSrc := src (history s ! (historyIndex s - 1)),
                       filters := hfilters (history s ! (historyIndex s - 1)),
                       lastAppliedFilters := hfilters (history s ! (historyIndex s - 1))\<rparr>
                else s)"
    using assms by (auto simp add: handleUndo_def history_ok_def Let_def)
  have redo: "handleRedo s =
           Inr (if historyIndex s < length (history s) - 1
                then s\<lparr>historyIndex := historyIndex s + 1,
                       imageSrc := src (history s ! (historyIndex s + 1)),
                       filters := hfilters (history s ! (historyIndex s + 1)),
                       lastAppliedFilters := hfilters (history s ! (historyIndex s + 1))\<rparr>
                else s)"
    using assms by (auto simp add: handleRedo_def history_ok_def Let_def)
  have scen: "(case handleUndo (addToHistory b fb (addToHistory a fa (initialState u))) of
             Inl err \<Rightarrow> False
           | Inr s3 \<Rightarrow>
               (let s4 = addToHistory c fc s3
                in length (history s4) = 3 \<and> historyIndex s4 = 2
                   \<and> map src (history s4) = [u, a, c]
                   \<and> handleRedo s4 = Inr s4))"
    by (simp add: initialState_def addToHistory_def handleUndo_def handleRedo_def Let_def)
  from commit last idx undo redo scen show ?thesis by blast
qed

theorem history_linear_witness:
  "history_ok (addToHistory (Url imgB) bright120 (initialState (Url imgA)))
   \<and> historyIndex (addToHistory (Url imgC) sepia50
        (addToHistory (Url imgB) bright120 (initialState (Url imgA)))) = 2
   \<and> (case handleUndo (addToHistory (Url imgB) bright120 (initialState (Url imgA))) of
         Inl err \<Rightarrow> False
       | Inr s' \<Rightarrow> historyIndex s' = 0 \<and> imageSrc s' = Url imgA
                   \<and> filters s' = DEFAULT_FILTERS \<and> length (history s') = 2)
   \<and> handleRedo (addToHistory (Url imgB) bright120 (initialState (Url imgA)))
       = Inr (addToHistory (Url imgB) bright120 (initialState (Url imgA)))"
  using history_linear [where s = "addToHistory (Url imgB) bright120 (initialState (Url imgA))"
      and newSrc = "Url imgC" and newFilters = sepia50 and u = "Url imgA"
      and a = "Url imgB" and fa = bright120 and b = "Url imgC" and fb = sepia50
      and c = "Url imgA" and fc = DEFAULT_FILTERS, OF history_ok_addToHistory]
  by (simp add: initialState_def addToHistory_def handleUndo_def handleRedo_def
        history_ok_def Let_def)

text \<open>
  Claim C2, as stated, fails. With the live adjustments brightness 120 and the rest at
  their defaults, clicking Clarendon leaves the saturation at 100: the preset's key is
  \<^verbatim>\<open>saturate\<close>, the live object's is \<^verbatim>\<open>saturation\<close>, and the spread adds a
  property instead of overwriting one, so that the filter string still says 100. And a
  field that the preset does not name does
  not keep its live value: a live sepia of 50 that was never applied is 0 after the
  click, the last-applied value.
\<close>

theorem preset_merge_counterexample:
  "filters (sliderChange ''brightness'' 120 (initialState (Url imgA)))
     = [(''brightness'', 120), (''contrast'', 100), (''saturation'', 100), (''sepia'', 0),
        (''grayscale'', 0), (''blur'', 0), (''hueRotate'', 0)]
   \<and> filter_f Clarendon = [(''contrast'', 120), (''saturate'', 125), (''brightness'', 110)]
   \<and> filters (presetClick Clarendon
               (sliderChange ''brightness'' 120 (initialState (Url imgA))))
     = [(''brightness'', 110), (''contrast'', 120), (''saturation'', 100), (''sepia'', 0),
        (''grayscale'', 0), (''blur'', 0), (''hueRotate'', 0), (''saturate'', 125)]
   \<and> get_prop (filters (presetClick Clarendon
               (sliderChange ''brightness'' 120 (initialState (Url imgA))))) ''saturation''
     \<noteq> Some 125
   \<and> getFilterString (filters (presetClick Clarendon
               (sliderChange ''brightness'' 120 (initialState (Url imgA)))))
     = [(''brightness'', Some 110), (''contrast'', Some 120), (''saturate'', Some 100),
        (''sepia'', Some 0), (''grayscale'', Some 0), (''blur'', Some 0),
        (''hue-rotate'', Some 0)]
   \<and> get_prop (filters (sliderChange ''sepia'' 50 (initialState (Url imgA)))) ''sepia''
     = Some 50
   \<and> get_prop (filter_f Clarendon) ''sepia'' = None
   \<and> get_prop (filters (presetClick Clarendon
               (sliderChange ''sepia'' 50 (initialState (Url imgA))))) ''sepia''
     = Some 0"
  by (simp add: presetClick_def sliderChange_def initialState_def spread_def
        DEFAULT_FILTERS_def Clarendon_def INSTAGRAM_FILTERS_def get_prop_def
        getFilterString_def)

text \<open>
  Claim C2, amended. Clicking a preset of the list in filter mode sets the live
  adjustments to the last-applied ones overwritten by the preset: for each of
  brightness, contrast, sepia, grayscale, blur and hue rotation, the value is the
  preset's when the preset names it and the last-applied value otherwise; the
  last-applied values stay. From the initial state with the brightness slider at 120,
  Clarendon gives brightness 110 and contrast 120, the other four at their defaults.
\<close>

theorem preset_merge_last_applied:
  assumes "f \<in> set INSTAGRAM_FILTERS" and "k \<in> set adjustmentKeys"
  shows "get_prop (filters (presetClick f s)) k
           = (case get_prop (filter_f f) k of
                Some v \<Rightarrow> Some v
              | None \<Rightarrow> get_prop (lastAppliedFilters s) k)
       \<and> lastAppliedFilters (presetClick f s) = lastAppliedFilters s
       \<and> map (get_prop (filters (presetClick Clarendon
                 (sliderChange ''brightness'' 120 (initialState u))))) adjustmentKeys
           = [Some 110, Some 120, Some 0, Some 0, Some 0, Some 0]"
proof -
  have "distinct (map fst (filter_f f))" using assms(1) by (rule presets_distinct)
  then have "get_prop (spread (lastAppliedFilters s) (filter_f f)) k
           = (case get_prop (filter_f f) k of
                Some v \<Rightarrow> Some v
              | None \<Rightarrow> get_prop (lastAppliedFilters s) k)"
    by (rule get_prop_spread)
  moreover have "map (get_prop (filters (presetClick Clarendon
                 (sliderChange ''brightness'' 120 (initialState u))))) adjustmentKeys
           = [Some 110, Some 120, Some 0, Some 0, Some 0, Some 0]"
    by (simp add: presetClick_def sliderChange_def initialState_def spread_def
        DEFAULT_FILTERS_def Clarendon_def INSTAGRAM_FILTERS_def get_prop_def adjustmentKeys_def)
  ultimately show ?thesis by (simp add: presetClick_def)
qed

theorem preset_merge_last_applied_witness:
  "Clarendon \<in> set INSTAGRAM_FILTERS \<and> ''sepia'' \<in> set adjustmentKeys
   \<and> get_prop (filter_f Clarendon) ''sepia'' = None
   \<and> get_prop (filters (sliderChange ''sepia'' 50
         (applyFilters (sliderChange ''brightness'' 120 (initialState (Url imgA))))))
        ''sepia'' = Some 50
   \<and> get_prop (filters (presetClick Clarendon (sliderChange ''sepia'' 50
         (applyFilters (sliderChange ''brightness'' 120 (initialState (Url imgA)))))))
        ''sepia'' = Some 0
   \<and> get_prop (filters (presetClick Clarendon (sliderChange ''sepia'' 50
         (applyFilters (sliderChange ''brightness'' 120 (initialState (Url imgA)))))))
        ''brightness'' = Some 110"
proof -
  have m: "Clarendon \<in> set INSTAGRAM_FILTERS"
    by (simp add: Clarendon_def INSTAGRAM_FILTERS_def)
  have k1: "''sepia'' \<in> set adjustmentKeys" by (simp add: adjustmentKeys_def)
  have k2: "''brightness'' \<in> set adjustmentKeys" by (simp add: adjustmentKeys_def)
  show ?thesis
    using m k1
      preset_merge_last_applied [OF m k1,
        of "sliderChange ''sepia'' 50
              (applyFilters (sliderChange ''brightness'' 120 (initialState (Url imgA))))"
           "Url imgA"]
      preset_merge_last_applied [OF m k2,
        of "sliderChange ''sepia'' 50
              (applyFilters (sliderChange ''brightness'' 120 (initialState (Url imgA))))"
           "Url imgA"]
    by (simp add: get_prop_def Clarendon_def INSTAGRAM_FILTERS_def sliderChange_def
          applyFilters_def addToHistory_def initialState_def Let_def
          DEFAULT_FILTERS_def spread_def)
qed

text \<open>
  Claim C3, as stated, fails. With the brightness slider at 120, pressing the Crop
  button bakes nothing: the base raster and the history are what they were, and the
  adjustments are still live.
\<close>

theorem enter_crop_counterexample:
  "filters (sliderChange ''brightness'' 120 (initialState (Url imgA))) \<noteq> DEFAULT_FILTERS
   \<and> mode cropEntered = Some Crop
   \<and> imageSrc cropEntered = Url imgA
   \<and> history cropEntered = [\<lparr>src = Url imgA, hfilters = DEFAULT_FILTERS\<rparr>]
   \<and> filters cropEntered
       = filters (sliderChange ''brightness'' 120 (initialState (Url imgA)))
   \<and> filters cropEntered \<noteq> DEFAULT_FILTERS"
  by (simp add: cropEntered_def afterRender_def setMode_def sliderChange_def initialState_def
        spread_def DEFAULT_FILTERS_def)

text \<open>
  Claim C3, amended. Entering crop mode, from any state, sets the mode and nothing
  else of the session's data: the base raster, the history with its index, the live
  and the last-applied adjustments are unchanged, whatever the live adjustments are,
  and the canvas is taken down with whatever was drawn on it and not yet committed.
  Apply Crop then crops the base raster \<^verbatim>\<open>imageSrc\<close>, not the displayed composite,
  and commits the result with the live adjustments, which stay live.
\<close>

theorem enter_crop_no_bake:
  "mode (afterRender s (setMode (Some Crop) s)) = Some Crop
   \<and> imageSrc (afterRender s (setMode (Some Crop) s)) = imageSrc s
   \<and> history (afterRender s (setMode (Some Crop) s)) = history s
   \<and> historyIndex (afterRender s (setMode (Some Crop) s)) = historyIndex s
   \<and> filters (afterRender s (setMode (Some Crop) s)) = filters s
   \<and> lastAppliedFilters (afterRender s (setMode (Some Crop) s)) = lastAppliedFilters s
   \<and> canvas (afterRender s (setMode (Some Crop) s)) = None
   \<and> (mode s = Some Crop \<and>
        getCroppedImg draw ctx (imageSrc s) (finalCrop scaleX scaleY s) (rotation s)
          (flipHorizontal s) (flipVertical s) = Inr (Some cropped)
      \<longrightarrow> imageSrc (performCrop draw ctx scaleX scaleY s) = cropped
          \<and> history (performCrop draw ctx scaleX scaleY s)
              = take (historyIndex s + 1) (history s)
                  @ [\<lparr>src = cropped, hfilters = filters s\<rparr>]
          \<and> filters (performCrop draw ctx scaleX scaleY s) = filters s
          \<and> lastAppliedFilters (performCrop draw ctx scaleX scaleY s)
              = lastAppliedFilters s
          \<and> mode (performCrop draw ctx scaleX scaleY s) = None)"
  by (simp add: afterRender_def setMode_def performCrop_def addToHistory_def Let_def)

theorem enter_crop_no_bake_witness:
  "mode cropEntered = Some Crop
   \<and> getCroppedImg drawUpright True (imageSrc cropEntered) (finalCrop 1 1 cropEntered)
        (rotation cropEntered) (flipHorizontal cropEntered) (flipVertical cropEntered)
       = Inr (Some (Url imgA))
   \<and> imageSrc (performCrop drawUpright True 1 1 cropEntered) = Url imgA
   \<and> filters (performCrop drawUpright True 1 1 cropEntered) = bright120
   \<and> bright120 \<noteq> DEFAULT_FILTERS"
proof -
  have m: "mode cropEntered = Some Crop"
    by (simp add: cropEntered_def afterRender_def setMode_def)
  have g: "getCroppedImg drawUpright True (imageSrc cropEntered) (finalCrop 1 1 cropEntered)
        (rotation cropEntered) (flipHorizontal cropEntered) (flipVertical cropEntered)
       = Inr (Some (Url imgA))"
    by (simp add: cropEntered_def afterRender_def setMode_def sliderChange_def
          initialState_def getCroppedImg_def finalCrop_def drawUpright_def toDataURL_def)
  have f: "filters cropEntered = bright120"
    by (simp add: cropEntered_def afterRender_def setMode_def sliderChange_def
          initialState_def bright120_def)
  have b: "bright120 \<noteq> DEFAULT_FILTERS"
    by (simp add: bright120_def spread_def DEFAULT_FILTERS_def)
  show ?thesis
    using m g f b
      enter_crop_no_bake [of cropEntered drawUpright True 1 1 "Url imgA"]
    by simp
qed


text \<open>
  Claim C8, as stated, fails. With the brightness slider at 120, Apply commits the
  base raster as it is, a second entry with the same raster, and the live adjustments
  are not reset.
\<close>

theorem apply_counterexample:
  "filters (sliderChange ''brightness'' 120 (initialState (Url imgA))) \<noteq> DEFAULT_FILTERS
   \<and> filters (applyFilters (sliderChange ''brightness'' 120 (initialState (Url imgA))))
       = filters (sliderChange ''brightness'' 120 (initialState (Url imgA)))
   \<and> filters (applyFilters (sliderChange ''brightness'' 120 (initialState (Url imgA))))
       \<noteq> DEFAULT_FILTERS
   \<and> map src (history (applyFilters
         (sliderChange ''brightness'' 120 (initialState (Url imgA)))))
       = [Url imgA, Url imgA]
   \<and> imageSrc (applyFilters (sliderChange ''brightness'' 120 (initialState (Url imgA))))
       = Url imgA"
  by (simp add: applyFilters_def addToHistory_def sliderChange_def initialState_def
        spread_def DEFAULT_FILTERS_def Let_def)

text \<open>
  Claim C8, amended. Apply commits a new history entry that pairs the base raster,
  unchanged, with the live adjustments, records them as the last-applied ones and
  leaves them live: the raster is not flattened and the adjustments are not reset, so
  that right after Apply there are no pending changes.
\<close>

theorem apply_commits_live_adjustments:
  "history (applyFilters s)
     = take (historyIndex s + 1) (history s) @ [\<lparr>src = imageSrc s, hfilters = filters s\<rparr>]
   \<and> historyIndex (applyFilters s) = length (history (applyFilters s)) - 1
   \<and> imageSrc (applyFilters s) = imageSrc s
   \<and> canvas (applyFilters s) = canvas s
   \<and> filters (applyFilters s) = filters s
   \<and> lastAppliedFilters (applyFilters s) = filters s
   \<and> \<not> hasChanges (applyFilters s)"
  by (simp add: applyFilters_def addToHistory_def Let_def hasChanges_def)


text \<open>
  Claim C10. Right after an undo or a redo that the buttons allow (the index above 0,
  or below the last position), the live and the last-applied adjustments are both the
  adjustments of the entry that is now current, so that nothing is pending, and a
  preset clicked next is merged onto that entry's adjustments.
\<close>

theorem undo_redo_restore_adjustments:
  assumes "history_ok s"
  shows "(0 < historyIndex s \<longrightarrow>
            (\<exists>s'. handleUndo s = Inr s'
               \<and> historyIndex s' = historyIndex s - 1 \<and> history s' = history s
               \<and> filters s' = hfilters (history s' ! historyIndex s')
               \<and> lastAppliedFilters s' = hfilters (history s' ! historyIndex s')
               \<and> \<not> hasChanges s'
               \<and> filters (presetClick f s')
                    = spread (hfilters (history s' ! historyIndex s')) (filter_f f)))
       \<and> (historyIndex s + 1 < length (history s) \<longrightarrow>
            (\<exists>s'. handleRedo s = Inr s'
               \<and> historyIndex s' = historyIndex s + 1 \<and> history s' = history s
               \<and> filters s' = hfilters (history s' ! historyIndex s')
               \<and> lastAppliedFilters s' = hfilters (history s' ! historyIndex s')
               \<and> \<not> hasChanges s'
               \<and> filters (presetClick f s')
                    = spread (hfilters (history s' ! historyIndex s')) (filter_f f)))"
proof (intro conjI impI)
  assume pos: "0 < historyIndex s"
  show "\<exists>s'. handleUndo s = Inr s'
               \<and> historyIndex s' = historyIndex s - 1 \<and> history s' = history s
               \<and> filters s' = hfilters (history s' ! historyIndex s')
               \<and> lastAppliedFilters s' = hfilters (history s' ! historyIndex s')
               \<and> \<not> hasChanges s'
               \<and> filters (presetClick f s')
                    = spread (hfilters (history s' ! historyIndex s')) (filter_f f)"
    unfolding handleUndo_step [OF assms pos]
    by (simp add: hasChanges_def presetClick_def)
next
  assume more: "historyIndex s + 1 < length (history s)"
  show "\<exists>s'. handleRedo s = Inr s'
               \<and> historyIndex s' = historyIndex s + 1 \<and> history s' = history s
               \<and> filters s' = hfilters (history s' ! historyIndex s')
               \<and> lastAppliedFilters s' = hfilters (history s' ! historyIndex s')
               \<and> \<not> hasChanges s'
               \<and> filters (presetClick f s')
                    = spread (hfilters (history s' ! historyIndex s')) (filter_f f)"
    unfolding handleRedo_step [OF more]
    by (simp add: hasChanges_def presetClick_def)
qed

lemma midHistory_eval:
  "history_ok midHistory \<and> historyIndex midHistory = 1
   \<and> length (history midHistory) = 3 \<and> hasChanges midHistory"
  by (simp add: midHistory_def handleUndo_def addToHistory_def sliderChange_def
        initialState_def history_ok_def hasChanges_def Let_def spread_def bright120_def
        sepia50_def DEFAULT_FILTERS_def)

theorem undo_redo_restore_adjustments_witness:
  "history_ok midHistory \<and> 0 < historyIndex midHistory
   \<and> historyIndex midHistory + 1 < length (history midHistory)
   \<and> hasChanges midHistory
   \<and> (case handleUndo midHistory of
         Inl err \<Rightarrow> False
       | Inr s' \<Rightarrow> filters s' = DEFAULT_FILTERS \<and> lastAppliedFilters s' = DEFAULT_FILTERS
                   \<and> \<not> hasChanges s')
   \<and> (case handleRedo midHistory of
         Inl err \<Rightarrow> False
       | Inr s' \<Rightarrow> filters s' = sepia50 \<and> lastAppliedFilters s' = sepia50
                   \<and> \<not> hasChanges s'
                   \<and> get_prop (filters (presetClick Clarendon s')) ''sepia'' = Some 50)"
proof -
  have ok: "history_ok midHistory" using midHistory_eval by simp
  show ?thesis
    using undo_redo_restore_adjustments [OF ok, of Clarendon] midHistory_eval
    by (simp add: midHistory_def handleUndo_def handleRedo_def addToHistory_def
          sliderChange_def initialState_def history_ok_def hasChanges_def Let_def
          spread_def bright120_def sepia50_def DEFAULT_FILTERS_def presetClick_def
          Clarendon_def INSTAGRAM_FILTERS_def get_prop_def)
qed


















text \<open>
  Claim C4, as stated, fails in its second half. For the 2 by 1 working raster, a
  2 by 2 rectangle at (1, 0), which overlaps it in one pixel, and one at (5, 0), which
  lies beside it, both give a result: a 2 by 2 raster, transparent black where the
  rectangle is outside. Neither is an error or an empty result.
\<close>

theorem crop_outside_counterexample:
  "width imgA = 2 \<and> height imgA = 1
   \<and> getCroppedImg drawUpright True (Url imgA) (Some cropPartlyOutside) 0 False False
       = Inr (Some (Url \<lparr>width = 2, height = 2,
                         data = [10, 200, 10, 255, 0, 0, 0, 0, 0, 0, 0, 0, 0, 0, 0, 0]\<rparr>))
   \<and> getCroppedImg drawUpright True (Url imgA) (Some cropOutside) 0 False False
       = Inr (Some (Url \<lparr>width = 2, height = 2,
                         data = [0, 0, 0, 0, 0, 0, 0, 0, 0, 0, 0, 0, 0, 0, 0, 0]\<rparr>))"
  by code_simp

text \<open>
  Claim C4, amended. Without a crop rectangle, crop skips the extraction and returns
  the whole working raster, rotated and flipped as drawn; without a 2D context it
  returns \<^verbatim>\<open>null\<close>. With a rectangle, crop makes no check of its position against
  the working raster. The four numbers go to \<^verbatim>\<open>getImageData\<close>, which drops their
  fractions: if one of them is then outside the signed 32-bit range, the call ends in a
  TypeError; if all are inside and the width or the height is 0, in an IndexSizeError.
  If all are inside and the rectangle is at least one pixel and at most the working
  raster in width and in height, then wherever it lies crop returns a raster of the
  rectangle's size: each pixel is the working raster's pixel at that place of the
  rectangle, and transparent black where the place is outside the working raster.
\<close>

theorem crop_no_bounds_check:
  "getCroppedImg draw True u None rot fh fv
     = Inr (Some (toDataURL (draw (createImage u) rot fh fv)))
   \<and> getCroppedImg draw False u pc0 rot fh fv = Inr None
   \<and> (toLong (crop_x pt) = Inl TypeError \<or> toLong (crop_y pt) = Inl TypeError
        \<or> toLong (crop_width pt) = Inl TypeError \<or> toLong (crop_height pt) = Inl TypeError
      \<longrightarrow> getCroppedImg draw True u (Some pt) rot fh fv = Inl TypeError)
   \<and> (toLong (crop_x pz) = Inr zx \<and> toLong (crop_y pz) = Inr zy
        \<and> toLong (crop_width pz) = Inr zw \<and> toLong (crop_height pz) = Inr zh
        \<and> (zw = 0 \<or> zh = 0)
      \<longrightarrow> getCroppedImg draw True u (Some pz) rot fh fv = Inl IndexSizeError)
   \<and> (toLong (crop_x pc) = Inr sx \<and> toLong (crop_y pc) = Inr sy
        \<and> toLong (crop_width pc) = Inr sw \<and> toLong (crop_height pc) = Inr sh
        \<and> 0 < sw \<and> sw \<le> int (width (draw (createImage u) rot fh fv))
        \<and> 0 < sh \<and> sh \<le> int (height (draw (createImage u) rot fh fv))
      \<longrightarrow> (\<exists>res. getCroppedImg draw True u (Some pc) rot fh fv = Inr (Some (Url res))
            \<and> int (width res) = sw \<and> int (height res) = sh
            \<and> (0 \<le> j \<and> j < sw \<and> 0 \<le> i \<and> i < sh
               \<longrightarrow> pixelAt res j i
                     = pixelAt (draw (createImage u) rot fh fv) (sx + j) (sy + i)
                   \<and> (sx + j < 0 \<or> int (width (draw (createImage u) rot fh fv)) \<le> sx + j
                        \<or> sy + i < 0
                        \<or> int (height (draw (createImage u) rot fh fv)) \<le> sy + i
                      \<longrightarrow> pixelAt res j i = [0, 0, 0, 0]))))"
proof (intro conjI impI)
  show "getCroppedImg draw True u None rot fh fv
     = Inr (Some (toDataURL (draw (createImage u) rot fh fv)))"
    by (simp add: getCroppedImg_def)
  show "getCroppedImg draw False u pc0 rot fh fv = Inr None"
    by (simp add: getCroppedImg_def)
next
  assume "toLong (crop_x pt) = Inl TypeError \<or> toLong (crop_y pt) = Inl TypeError
        \<or> toLong (crop_width pt) = Inl TypeError \<or> toLong (crop_height pt) = Inl TypeError"
  then have "getImageData (draw (createImage u) rot fh fv) (crop_x pt) (crop_y pt)
               (crop_width pt) (crop_height pt) = Inl TypeError"
    by (rule getImageData_range)
  then show "getCroppedImg draw True u (Some pt) rot fh fv = Inl TypeError"
    by (simp add: getCroppedImg_def)
next
  assume z: "toLong (crop_x pz) = Inr zx \<and> toLong (crop_y pz) = Inr zy
        \<and> toLong (crop_width pz) = Inr zw \<and> toLong (crop_height pz) = Inr zh
        \<and> (zw = 0 \<or> zh = 0)"
  then have "getImageData (draw (createImage u) rot fh fv) (crop_x pz) (crop_y pz)
               (crop_width pz) (crop_height pz) = Inl IndexSizeError"
    by (intro getImageData_zero [of _ zx _ zy _ zw _ zh]) simp_all
  then show "getCroppedImg draw True u (Some pz) rot fh fv = Inl IndexSizeError"
    by (simp add: getCroppedImg_def)
next
  let ?work = "draw (createImage u) rot fh fv"
  let ?d = "imageRect ?work sx sy sw sh"
  let ?res = "putImageData00 (nat sw) (nat sh) ?d"
  assume c: "toLong (crop_x pc) = Inr sx \<and> toLong (crop_y pc) = Inr sy
        \<and> toLong (crop_width pc) = Inr sw \<and> toLong (crop_height pc) = Inr sh
        \<and> 0 < sw \<and> sw \<le> int (width ?work) \<and> 0 < sh \<and> sh \<le> int (height ?work)"
  then have t: "toLong (crop_x pc) = Inr sx" "toLong (crop_y pc) = Inr sy"
      "toLong (crop_width pc) = Inr sw" "toLong (crop_height pc) = Inr sh"
    and pos: "0 < sw" "0 < sh" and nz: "sw \<noteq> 0" "sh \<noteq> 0"
    by simp_all
  have g: "getImageData ?work (crop_x pc) (crop_y pc) (crop_width pc) (crop_height pc)
             = Inr ?d"
    using t nz by (rule getImageData_ok)
  have r: "getCroppedImg draw True u (Some pc) rot fh fv = Inr (Some (Url ?res))"
    using pos
    by (simp add: getCroppedImg_def g toDataURL_def toLong_pos_canvasDim [OF t(3)]
          toLong_pos_canvasDim [OF t(4)])
  have w: "int (width ?res) = sw" and h: "int (height ?res) = sh"
    using pos by (simp_all add: putImageData00_dims)
  have px: "0 \<le> j \<and> j < sw \<and> 0 \<le> i \<and> i < sh
      \<longrightarrow> pixelAt ?res j i = pixelAt ?work (sx + j) (sy + i)
          \<and> (sx + j < 0 \<or> int (width ?work) \<le> sx + j \<or> sy + i < 0
               \<or> int (height ?work) \<le> sy + i
             \<longrightarrow> pixelAt ?res j i = [0, 0, 0, 0])"
  proof
    assume in_rect: "0 \<le> j \<and> j < sw \<and> 0 \<le> i \<and> i < sh"
    then have "pixelAt ?res j i = pixelAt ?d j i"
      using pos by (subst pixelAt_putImageData00) (simp_all add: imageRect_dims)
    also have "\<dots> = pixelAt ?work (sx + j) (sy + i)"
      using in_rect pos by (intro pixelAt_imageRect) simp_all
    finally have eq: "pixelAt ?res j i = pixelAt ?work (sx + j) (sy + i)" .
    then show "pixelAt ?res j i = pixelAt ?work (sx + j) (sy + i)
          \<and> (sx + j < 0 \<or> int (width ?work) \<le> sx + j \<or> sy + i < 0
               \<or> int (height ?work) \<le> sy + i
             \<longrightarrow> pixelAt ?res j i = [0, 0, 0, 0])"
      using pixelAt_outside [of "sx + j" ?work "sy + i"] by auto
  qed
  from r w h px
  show "\<exists>res. getCroppedImg draw True u (Some pc) rot fh fv = Inr (Some (Url res))
            \<and> int (width res) = sw \<and> int (height res) = sh
            \<and> (0 \<le> j \<and> j < sw \<and> 0 \<le> i \<and> i < sh
               \<longrightarrow> pixelAt res j i = pixelAt ?work (sx + j) (sy + i)
                   \<and> (sx + j < 0 \<or> int (width ?work) \<le> sx + j \<or> sy + i < 0
                        \<or> int (height ?work) \<le> sy + i
                      \<longrightarrow> pixelAt res j i = [0, 0, 0, 0]))"
    by blast
qed


lemma crop_examples:
  "toLong (crop_x cropEmpty) = Inr 0 \<and> toLong (crop_y cropEmpty) = Inr 0
   \<and> toLong (crop_width cropEmpty) = Inr 0 \<and> toLong (crop_height cropEmpty) = Inr 1
   \<and> toLong (crop_width cropHuge) = Inl TypeError
   \<and> toLong (crop_x cropShifted) = Inr 1 \<and> toLong (crop_y cropShifted) = Inr 0
   \<and> toLong (crop_width cropShifted) = Inr 2 \<and> toLong (crop_height cropShifted) = Inr 1"
  by (simp add: cropEmpty_def cropHuge_def cropShifted_def toLong_def toInteger_def)

lemma crop_example_pixels:
  "width (drawUpright (createImage (Url imgA)) 0 False False) = 2
   \<and> height (drawUpright (createImage (Url imgA)) 0 False False) = 1
   \<and> pixelAt (drawUpright (createImage (Url imgA)) 0 False False) 1 0 = [10, 200, 10, 255]
   \<and> pixelAt (drawUpright (createImage (Url imgA)) 0 False False) 2 0 = [0, 0, 0, 0]"
  by code_simp

theorem crop_no_bounds_check_witness:
  "toLong (crop_width cropHuge) = Inl TypeError
   \<and> getCroppedImg drawUpright True (Url imgA) (Some cropHuge) 0 False False
       = Inl TypeError
   \<and> toLong (crop_width cropEmpty) = Inr 0
   \<and> getCroppedImg drawUpright True (Url imgA) (Some cropEmpty) 0 False False
       = Inl IndexSizeError
   \<and> toLong (crop_x cropShifted) = Inr 1 \<and> toLong (crop_y cropShifted) = Inr 0
   \<and> toLong (crop_width cropShifted) = Inr 2 \<and> toLong (crop_height cropShifted) = Inr 1
   \<and> (2 :: int) \<le> int (width (drawUpright (createImage (Url imgA)) 0 False False))
   \<and> (1 :: int) \<le> int (height (drawUpright (createImage (Url imgA)) 0 False False))
   \<and> (\<exists>res. getCroppedImg drawUpright True (Url imgA) (Some cropShifted) 0 False False
                = Inr (Some (Url res))
            \<and> width res = 2 \<and> height res = 1
            \<and> pixelAt res 0 0 = [10, 200, 10, 255]
            \<and> pixelAt res 1 0 = [0, 0, 0, 0])"
proof -
  note th = crop_no_bounds_check [where draw = drawUpright and u = "Url imgA" and rot = 0
      and fh = False and fv = False and ?pc0.0 = "Some cropEmpty"
      and pt = cropHuge
      and pz = cropEmpty and zx = 0 and zy = 0 and zw = 0 and zh = 1
      and pc = cropShifted and sx = 1 and sy = 0 and sw = 2 and sh = 1]
  note one = th [where j = 1 and i = 0]
  note zero = th [where j = 0 and i = 0]
  show ?thesis
    using one zero crop_examples crop_example_pixels
    by auto
qed











end
